theory Spec2Isabelle
  imports Complex_Main "HOL-Library.Sublist" "HOL-Library.AList"
begin

section \<open>CSS colour analyzer: the model\<close>

text \<open>
  The development follows \<^verbatim>\<open>css-colors-analyzer/analyzer.py\<close>.

  Modelling conventions.
  \<^item> A Python \<^verbatim>\<open>str\<close> is a \<^typ>\<open>string\<close> whose characters are the code points below
    256; \<^verbatim>\<open>str.lower\<close>, \<^verbatim>\<open>\s\<close>, \<^verbatim>\<open>\d\<close>, \<^verbatim>\<open>\w\<close> and \<^verbatim>\<open>\b\<close> are modelled on that
    range as Python defines them. Code points from 256 on are outside the model.
  \<^item> A Python \<^verbatim>\<open>float\<close> is an exact rational (\<^typ>\<open>rat\<close>): rounding and overflow of
    binary floating point are not modelled. \<^verbatim>\<open>int(x)\<close> on a float truncates toward
    zero and \<^verbatim>\<open>x % 1.0\<close> is the fractional part.
  \<^item> A Python \<^verbatim>\<open>int\<close> is an \<^typ>\<open>int\<close>; the limit on the number of digits that
    \<^verbatim>\<open>int(str)\<close> accepts is not modelled.
  \<^item> A Python exception is a value \<open>Inl e\<close> of a sum type.
  \<^item> A \<^verbatim>\<open>dict\<close> is an association list in insertion order; assigning to an
    existing key replaces the value in place, assigning to a new key appends
    (\<^const>\<open>AList.update\<close>).
\<close>

datatype py_error = ValueError | ZeroDivisionError | IndexError | TypeError | AttributeError

subsection \<open>Characters\<close>

definition code :: "char \<Rightarrow> int" where
  "code c = of_char c"

text \<open>\<^verbatim>\<open>str.lower\<close> on one character.\<close>

definition lower_char :: "char \<Rightarrow> char" where
  "lower_char c =
     (if (65 \<le> code c \<and> code c \<le> 90) \<or> (192 \<le> code c \<and> code c \<le> 214)
         \<or> (216 \<le> code c \<and> code c \<le> 222)
      then char_of (code c + 32) else c)"

definition lower :: "string \<Rightarrow> string" where
  "lower s = map lower_char s"

text \<open>The class \<^verbatim>\<open>\s\<close> of \<^verbatim>\<open>re\<close>.\<close>

definition is_space :: "char \<Rightarrow> bool" where
  "is_space c = ((9 \<le> code c \<and> code c \<le> 13) \<or> (28 \<le> code c \<and> code c \<le> 32)
     \<or> code c = 133 \<or> code c = 160)"

text \<open>The white space that \<^verbatim>\<open>int(str)\<close> strips.\<close>

definition is_int_space :: "char \<Rightarrow> bool" where
  "is_int_space c = ((9 \<le> code c \<and> code c \<le> 13) \<or> code c = 32
     \<or> code c = 133 \<or> code c = 160)"

definition is_digit :: "char \<Rightarrow> bool" where
  "is_digit c = (48 \<le> code c \<and> code c \<le> 57)"

definition is_hex_digit :: "char \<Rightarrow> bool" where
  "is_hex_digit c =
     (is_digit c \<or> (97 \<le> code c \<and> code c \<le> 102) \<or> (65 \<le> code c \<and> code c \<le> 70))"

text \<open>The class \<^verbatim>\<open>\w\<close> of \<^verbatim>\<open>re\<close>.\<close>

definition is_word :: "char \<Rightarrow> bool" where
  "is_word c =
     (is_digit c \<or> (65 \<le> code c \<and> code c \<le> 90) \<or> code c = 95
      \<or> (97 \<le> code c \<and> code c \<le> 122) \<or> code c = 170 \<or> code c = 178 \<or> code c = 179
      \<or> code c = 181 \<or> code c = 185 \<or> code c = 186 \<or> (188 \<le> code c \<and> code c \<le> 190)
      \<or> (192 \<le> code c \<and> code c \<le> 214) \<or> (216 \<le> code c \<and> code c \<le> 246)
      \<or> 248 \<le> code c)"

subsection \<open>\<^verbatim>\<open>int(s)\<close> and \<^verbatim>\<open>int(s, 16)\<close>\<close>

definition digit_val :: "int \<Rightarrow> char \<Rightarrow> int option" where
  "digit_val base c =
     (let v = (if is_digit c then Some (code c - 48)
               else if 97 \<le> code c \<and> code c \<le> 122 then Some (code c - 87)
               else if 65 \<le> code c \<and> code c \<le> 90 then Some (code c - 55)
               else None)
      in case v of None \<Rightarrow> None | Some d \<Rightarrow> if d < base then Some d else None)"

fun digits_val :: "int \<Rightarrow> int \<Rightarrow> string \<Rightarrow> int option" where
  "digits_val base acc [] = Some acc"
| "digits_val base acc (c # cs) =
     (case digit_val base c of None \<Rightarrow> None
      | Some d \<Rightarrow> digits_val base (base * acc + d) cs)"

definition strip :: "string \<Rightarrow> string" where
  "strip s = rev (dropWhile is_int_space (rev (dropWhile is_int_space s)))"

text \<open>
  \<^verbatim>\<open>int(s, base)\<close>: white space is stripped, one sign is allowed, and at least one
  digit of the base must follow. The \<^verbatim>\<open>0x\<close> prefix and the underscore separators
  that Python also accepts are left out: they need three characters or more, whereas
  \<^verbatim>\<open>hex_to_rgb\<close> passes slices of at most two characters and the extractor passes
  groups matched by \<^verbatim>\<open>\d+\<close>.
\<close>

definition py_int_of_str :: "int \<Rightarrow> string \<Rightarrow> py_error + int" where
  "py_int_of_str base s =
     (let t = strip s;
          neg = (case t of c # _ \<Rightarrow> c = CHR ''-'' | [] \<Rightarrow> False);
          ds = (case t of c # cs \<Rightarrow> if c = CHR ''-'' \<or> c = CHR ''+'' then cs else t | [] \<Rightarrow> [])
      in if ds = [] then Inl ValueError
         else (case digits_val base 0 ds of
                 None \<Rightarrow> Inl ValueError
               | Some n \<Rightarrow> Inr (if neg then - n else n)))"

subsection \<open>\<^verbatim>\<open>normalize_hex_color\<close> and \<^verbatim>\<open>hex_to_rgb\<close>\<close>

definition normalize_hex_color :: "string \<Rightarrow> string" where
  "normalize_hex_color hex_color =
     (let h = lower hex_color
      in if length h = 4 then CHR ''#'' # concat (map (\<lambda>c. [c, c]) (tl h)) else h)"

definition hex_to_rgb :: "string \<Rightarrow> py_error + (int \<times> int \<times> int)" where
  "hex_to_rgb hex_color =
     (let h = tl (normalize_hex_color hex_color)
      in case py_int_of_str 16 (take 2 h) of Inl e \<Rightarrow> Inl e
         | Inr r \<Rightarrow>
        (case py_int_of_str 16 (take 2 (drop 2 h)) of Inl e \<Rightarrow> Inl e
         | Inr g \<Rightarrow>
        (case py_int_of_str 16 (take 2 (drop 4 h)) of Inl e \<Rightarrow> Inl e
         | Inr b \<Rightarrow> Inr (r, g, b))))"

subsection \<open>\<^verbatim>\<open>colorsys\<close> and \<^verbatim>\<open>rgb_to_hsl\<close>\<close>

text \<open>
  \<^verbatim>\<open>colorsys\<close> is a module of the Python standard library; the functions the analyzer
  calls (\<^verbatim>\<open>rgb_to_hls\<close>, \<^verbatim>\<open>hls_to_rgb\<close> and its helper \<^verbatim>\<open>_v\<close>) are transcribed from
  it. A division by zero raises.
\<close>

definition rgb_to_hls :: "rat \<Rightarrow> rat \<Rightarrow> rat \<Rightarrow> py_error + (rat \<times> rat \<times> rat)" where
  "rgb_to_hls r g b =
     (let maxc = max r (max g b);
          minc = min r (min g b);
          sumc = maxc + minc;
          rangec = maxc - minc;
          l = sumc / 2
      in if minc = maxc then Inr (0, l, 0)
         else if l \<le> 1 / 2 \<and> sumc = 0 then Inl ZeroDivisionError
         else if \<not> l \<le> 1 / 2 \<and> 2 - maxc - minc = 0 then Inl ZeroDivisionError
         else
           let s = (if l \<le> 1 / 2 then rangec / sumc else rangec / (2 - maxc - minc));
               rc = (maxc - r) / rangec;
               gc = (maxc - g) / rangec;
               bc = (maxc - b) / rangec;
               h = (if r = maxc then bc - gc
                    else if g = maxc then 2 + rc - bc
                    else 4 + gc - rc)
           in Inr (frac (h / 6), l, s))"

definition colorsys_v :: "rat \<Rightarrow> rat \<Rightarrow> rat \<Rightarrow> rat" where
  "colorsys_v m1 m2 hue0 =
     (let hue = frac hue0
      in if hue < 1 / 6 then m1 + (m2 - m1) * hue * 6
         else if hue < 1 / 2 then m2
         else if hue < 2 / 3 then m1 + (m2 - m1) * (2 / 3 - hue) * 6
         else m1)"

definition hls_to_rgb :: "rat \<Rightarrow> rat \<Rightarrow> rat \<Rightarrow> rat \<times> rat \<times> rat" where
  "hls_to_rgb h l s =
     (if s = 0 then (l, l, l)
      else
        let m2 = (if l \<le> 1 / 2 then l * (1 + s) else l + s - (l * s));
            m1 = 2 * l - m2
        in (colorsys_v m1 m2 (h + 1 / 3), colorsys_v m1 m2 h, colorsys_v m1 m2 (h - 1 / 3)))"

text \<open>\<^verbatim>\<open>int(x)\<close> on a float.\<close>

definition py_int :: "rat \<Rightarrow> int" where
  "py_int x = (if 0 \<le> x then \<lfloor>x\<rfloor> else \<lceil>x\<rceil>)"

definition rgb_to_hsl :: "int \<Rightarrow> int \<Rightarrow> int \<Rightarrow> py_error + (int \<times> int \<times> int)" where
  "rgb_to_hsl r g b =
     (case rgb_to_hls (of_int r / 255) (of_int g / 255) (of_int b / 255) of
        Inl e \<Rightarrow> Inl e
      | Inr (h, l, s) \<Rightarrow> Inr (py_int (h * 360), py_int (s * 100), py_int (l * 100)))"

subsection \<open>\<^verbatim>\<open>determine_color_category\<close> and \<^verbatim>\<open>format_of_color\<close>\<close>

text \<open>The two \<^verbatim>\<open>if\<close> chains of \<^verbatim>\<open>determine_color_category\<close>, on the triple \<^verbatim>\<open>hsl\<close>.\<close>

definition category_of_hsl :: "int \<Rightarrow> int \<Rightarrow> int \<Rightarrow> string" where
  "category_of_hsl h s l =
     (if s < 10 then
        (if l < 10 then ''black''
         else if l > 90 then ''white''
         else ''gray'')
      else if h < 15 \<or> h \<ge> 345 then ''red''
      else if h < 45 then ''orange''
      else if h < 75 then ''yellow''
      else if h < 165 then ''green''
      else if h < 195 then ''teal''
      else if h < 255 then ''blue''
      else if h < 315 then ''purple''
      else ''pink'')"

definition determine_color_category :: "string \<Rightarrow> py_error + string" where
  "determine_color_category hex_color =
     (case hex_to_rgb hex_color of Inl e \<Rightarrow> Inl e
      | Inr (r, g, b) \<Rightarrow>
        (case rgb_to_hsl r g b of Inl e \<Rightarrow> Inl e
         | Inr (h, s, l) \<Rightarrow> Inr (category_of_hsl h s l)))"

definition format_of_color :: "string \<Rightarrow> string" where
  "format_of_color color =
     (if prefix ''#'' color then ''hex''
      else if prefix ''rgb('' color then ''rgb''
      else if prefix ''rgba('' color then ''rgba''
      else if prefix ''hsl('' color then ''hsl''
      else if prefix ''hsla('' color then ''hsla''
      else ''named'')"

subsection \<open>The format \<^verbatim>\<open>{n:02x}\<close>\<close>

definition hex_char :: "int \<Rightarrow> char" where
  "hex_char d = (if d < 10 then char_of (48 + d) else char_of (87 + d))"

text \<open>The hexadecimal digits of a number that is not negative.\<close>

function to_hex :: "int \<Rightarrow> string" where
  "to_hex n = (if n < 16 then [hex_char n] else to_hex (n div 16) @ [hex_char (n mod 16)])"
  by pat_completeness auto
termination
  by (relation "measure nat") auto

declare to_hex.simps [simp del]

text \<open>
  Lowercase hexadecimal, padded with zeros to a width of two; a negative number
  keeps its sign, which counts in the width.
\<close>

definition fmt02x :: "int \<Rightarrow> string" where
  "fmt02x n =
     (if n < 0 then CHR ''-'' # to_hex (- n)
      else let ds = to_hex n in if length ds < 2 then CHR ''0'' # ds else ds)"

definition hex_value_of :: "int \<Rightarrow> int \<Rightarrow> int \<Rightarrow> string" where
  "hex_value_of r g b = CHR ''#'' # fmt02x r @ fmt02x g @ fmt02x b"

subsection \<open>The regular expressions and \<^verbatim>\<open>re.finditer\<close>\<close>

text \<open>
  \<^verbatim>\<open>re\<close> is a module of the Python standard library. The fragment the analyzer uses
  is modelled as a backtracking matcher that returns every way to match in the order
  in which \<^verbatim>\<open>re\<close> tries them (the first alternative first, the longest repetition
  first); the match is the first one. A matcher state is the reversed text before
  the cursor, the text after it, and the groups captured so far.
\<close>

datatype cls = Digit | Space | Hex

fun in_cls :: "cls \<Rightarrow> char \<Rightarrow> bool" where
  "in_cls Digit c = is_digit c"
| "in_cls Space c = is_space c"
| "in_cls Hex c = is_hex_digit c"

datatype rx =
    Eps
  | Chr char
  | Star cls
  | Plus cls
  | Rep nat cls
  | Opt rx
  | Seq rx rx
  | Alt rx rx
  | Grp nat rx
  | Bnd

type_synonym mstate = "string \<times> string \<times> string option list"

definition greedy :: "cls \<Rightarrow> nat \<Rightarrow> mstate \<Rightarrow> mstate list" where
  "greedy k lo st =
     (case st of (pre, post, caps) \<Rightarrow>
        let n = length (takeWhile (in_cls k) post)
        in map (\<lambda>j. (rev (take j post) @ pre, drop j post, caps)) (rev [lo..<Suc n]))"

text \<open>\<^verbatim>\<open>\b\<close>: exactly one side of the cursor is a word character.\<close>

definition at_boundary :: "string \<Rightarrow> string \<Rightarrow> bool" where
  "at_boundary pre post =
     ((case pre of [] \<Rightarrow> False | c # _ \<Rightarrow> is_word c)
      \<noteq> (case post of [] \<Rightarrow> False | c # _ \<Rightarrow> is_word c))"

fun rmatch :: "bool \<Rightarrow> rx \<Rightarrow> mstate \<Rightarrow> mstate list" where
  "rmatch ic Eps st = [st]"
| "rmatch ic (Chr c) (pre, post, caps) =
     (case post of [] \<Rightarrow> []
      | d # ds \<Rightarrow>
          if (if ic then lower_char d = lower_char c else d = c)
          then [(d # pre, ds, caps)] else [])"
| "rmatch ic (Star k) st = greedy k 0 st"
| "rmatch ic (Plus k) st = greedy k 1 st"
| "rmatch ic (Rep n k) (pre, post, caps) =
     (if n \<le> length (takeWhile (in_cls k) post)
      then [(rev (take n post) @ pre, drop n post, caps)] else [])"
| "rmatch ic (Opt r) st = rmatch ic r st @ [st]"
| "rmatch ic (Seq a b) st = concat (map (rmatch ic b) (rmatch ic a st))"
| "rmatch ic (Alt a b) st = rmatch ic a st @ rmatch ic b st"
| "rmatch ic (Grp i r) (pre, post, caps) =
     map (\<lambda>(pre', post', caps').
            (pre', post', caps'[i := Some (rev (take (length pre' - length pre) pre'))]))
         (rmatch ic r (pre, post, caps))"
| "rmatch ic Bnd (pre, post, caps) = (if at_boundary pre post then [(pre, post, caps)] else [])"

fun ngroups :: "rx \<Rightarrow> nat" where
  "ngroups (Opt r) = ngroups r"
| "ngroups (Seq a b) = ngroups a + ngroups b"
| "ngroups (Alt a b) = ngroups a + ngroups b"
| "ngroups (Grp i r) = Suc (ngroups r)"
| "ngroups r = 0"

text \<open>A match object: \<^verbatim>\<open>group(0)\<close> and \<^verbatim>\<open>groups()\<close>.\<close>

record re_match =
  text_of :: string
  groups :: "string option list"

definition match_at :: "bool \<Rightarrow> rx \<Rightarrow> string \<Rightarrow> string \<Rightarrow> re_match option" where
  "match_at ic r pre post =
     (case rmatch ic r (pre, post, replicate (ngroups r) None) of
        [] \<Rightarrow> None
      | (pre', post', caps') # _ \<Rightarrow>
          Some \<lparr>text_of = rev (take (length pre' - length pre) pre'), groups = caps'\<rparr>)"

text \<open>
  The scan of \<^verbatim>\<open>finditer\<close>: at each position the pattern is tried; after a match the
  scan resumes behind it (\<open>skip\<close> counts the characters of the match still to pass),
  otherwise one character further.
\<close>

fun scan :: "bool \<Rightarrow> rx \<Rightarrow> nat \<Rightarrow> string \<Rightarrow> string \<Rightarrow> re_match list" where
  "scan ic r skip pre [] =
     (if skip = 0 then (case match_at ic r pre [] of None \<Rightarrow> [] | Some m \<Rightarrow> [m]) else [])"
| "scan ic r skip pre (c # cs) =
     (if skip > 0 then scan ic r (skip - 1) (c # pre) cs
      else (case match_at ic r pre (c # cs) of
              None \<Rightarrow> scan ic r 0 (c # pre) cs
            | Some m \<Rightarrow> m # scan ic r (length (text_of m) - 1) (c # pre) cs))"

definition finditer :: "bool \<Rightarrow> rx \<Rightarrow> string \<Rightarrow> re_match list" where
  "finditer ic r content = scan ic r 0 [] content"

definition seqs :: "rx list \<Rightarrow> rx" where
  "seqs rs = foldr Seq rs Eps"

definition lit :: "string \<Rightarrow> rx" where
  "lit s = seqs (map Chr s)"

definition HEX_COLOR_REGEX :: rx where
  "HEX_COLOR_REGEX = seqs [Chr CHR ''#'', Grp 0 (Alt (Rep 3 Hex) (Rep 6 Hex)), Bnd]"

definition RGB_COLOR_REGEX :: rx where
  "RGB_COLOR_REGEX =
     seqs [lit ''rgb('', Star Space, Grp 0 (Plus Digit), Star Space, Chr CHR '','',
           Star Space, Grp 1 (Plus Digit), Star Space, Chr CHR '','',
           Star Space, Grp 2 (Plus Digit), Star Space, Chr CHR '')'']"

text \<open>
  The alpha component \<^verbatim>\<open>(0?\.\d+|1(\.0)?|0)\<close>: the fourth group, with the fifth
  group \<^verbatim>\<open>(\.0)\<close> inside it.
\<close>

definition ALPHA :: rx where
  "ALPHA =
     Grp 3 (Alt (seqs [Opt (Chr CHR ''0''), Chr CHR ''.'', Plus Digit])
           (Alt (Seq (Chr CHR ''1'') (Opt (Grp 4 (lit ''.0''))))
                (Chr CHR ''0'')))"

definition RGBA_COLOR_REGEX :: rx where
  "RGBA_COLOR_REGEX =
     seqs [lit ''rgba('', Star Space, Grp 0 (Plus Digit), Star Space, Chr CHR '','',
           Star Space, Grp 1 (Plus Digit), Star Space, Chr CHR '','',
           Star Space, Grp 2 (Plus Digit), Star Space, Chr CHR '','',
           Star Space, ALPHA, Star Space, Chr CHR '')'']"

definition HSL_COLOR_REGEX :: rx where
  "HSL_COLOR_REGEX =
     seqs [lit ''hsl('', Star Space, Grp 0 (Plus Digit), Star Space, Chr CHR '','',
           Star Space, Grp 1 (Plus Digit), Chr CHR ''%'', Star Space, Chr CHR '','',
           Star Space, Grp 2 (Plus Digit), Chr CHR ''%'', Star Space, Chr CHR '')'']"

definition HSLA_COLOR_REGEX :: rx where
  "HSLA_COLOR_REGEX =
     seqs [lit ''hsla('', Star Space, Grp 0 (Plus Digit), Star Space, Chr CHR '','',
           Star Space, Grp 1 (Plus Digit), Chr CHR ''%'', Star Space, Chr CHR '','',
           Star Space, Grp 2 (Plus Digit), Chr CHR ''%'', Star Space, Chr CHR '','',
           Star Space, ALPHA, Star Space, Chr CHR '')'']"

subsection \<open>The table \<^verbatim>\<open>NAMED_COLORS\<close>\<close>

definition NAMED_COLORS :: "(string \<times> string) list" where
  "NAMED_COLORS =
     [(''aliceblue'', ''#f0f8ff''), (''antiquewhite'', ''#faebd7''), (''aqua'', ''#00ffff''),
      (''aquamarine'', ''#7fffd4''), (''azure'', ''#f0ffff''), (''beige'', ''#f5f5dc''),
      (''bisque'', ''#ffe4c4''), (''black'', ''#000000''), (''blanchedalmond'', ''#ffebcd''),
      (''blue'', ''#0000ff''), (''blueviolet'', ''#8a2be2''), (''brown'', ''#a52a2a''),
      (''burlywood'', ''#deb887''), (''cadetblue'', ''#5f9ea0''),
      (''chartreuse'', ''#7fff00''), (''chocolate'', ''#d2691e''), (''coral'', ''#ff7f50''),
      (''cornflowerblue'', ''#6495ed''), (''cornsilk'', ''#fff8dc''),
      (''crimson'', ''#dc143c''), (''cyan'', ''#00ffff''), (''darkblue'', ''#00008b''),
      (''darkcyan'', ''#008b8b''), (''darkgoldenrod'', ''#b8860b''),
      (''darkgray'', ''#a9a9a9''), (''darkgreen'', ''#006400''), (''darkgrey'', ''#a9a9a9''),
      (''darkkhaki'', ''#bdb76b''), (''darkmagenta'', ''#8b008b''),
      (''darkolivegreen'', ''#556b2f''), (''darkorange'', ''#ff8c00''),
      (''darkorchid'', ''#9932cc''), (''darkred'', ''#8b0000''),
      (''darksalmon'', ''#e9967a''), (''darkseagreen'', ''#8fbc8f''),
      (''darkslateblue'', ''#483d8b''), (''darkslategray'', ''#2f4f4f''),
      (''darkslategrey'', ''#2f4f4f''), (''darkturquoise'', ''#00ced1''),
      (''darkviolet'', ''#9400d3''), (''deeppink'', ''#ff1493''),
      (''deepskyblue'', ''#00bfff''), (''dimgray'', ''#696969''), (''dimgrey'', ''#696969''),
      (''dodgerblue'', ''#1e90ff''), (''firebrick'', ''#b22222''),
      (''floralwhite'', ''#fffaf0''), (''forestgreen'', ''#228b22''),
      (''fuchsia'', ''#ff00ff''), (''gainsboro'', ''#dcdcdc''),
      (''ghostwhite'', ''#f8f8ff''), (''gold'', ''#ffd700''), (''goldenrod'', ''#daa520''),
      (''gray'', ''#808080''), (''green'', ''#008000''), (''greenyellow'', ''#adff2f''),
      (''grey'', ''#808080''), (''honeydew'', ''#f0fff0''), (''hotpink'', ''#ff69b4''),
      (''indianred'', ''#cd5c5c''), (''indigo'', ''#4b0082''), (''ivory'', ''#fffff0''),
      (''khaki'', ''#f0e68c''), (''lavender'', ''#e6e6fa''),
      (''lavenderblush'', ''#fff0f5''), (''lawngreen'', ''#7cfc00''),
      (''lemonchiffon'', ''#fffacd''), (''lightblue'', ''#add8e6''),
      (''lightcoral'', ''#f08080''), (''lightcyan'', ''#e0ffff''),
      (''lightgoldenrodyellow'', ''#fafad2''), (''lightgray'', ''#d3d3d3''),
      (''lightgreen'', ''#90ee90''), (''lightgrey'', ''#d3d3d3''),
      (''lightpink'', ''#ffb6c1''), (''lightsalmon'', ''#ffa07a''),
      (''lightseagreen'', ''#20b2aa''), (''lightskyblue'', ''#87cefa''),
      (''lightslategray'', ''#778899''), (''lightslategrey'', ''#778899''),
      (''lightsteelblue'', ''#b0c4de''), (''lightyellow'', ''#ffffe0''),
      (''lime'', ''#00ff00''), (''limegreen'', ''#32cd32''), (''linen'', ''#faf0e6''),
      (''magenta'', ''#ff00ff''), (''maroon'', ''#800000''),
      (''mediumaquamarine'', ''#66cdaa''), (''mediumblue'', ''#0000cd''),
      (''mediumorchid'', ''#ba55d3''), (''mediumpurple'', ''#9370db''),
      (''mediumseagreen'', ''#3cb371''), (''mediumslateblue'', ''#7b68ee''),
      (''mediumspringgreen'', ''#00fa9a''), (''mediumturquoise'', ''#48d1cc''),
      (''mediumvioletred'', ''#c71585''), (''midnightblue'', ''#191970''),
      (''mintcream'', ''#f5fffa''), (''mistyrose'', ''#ffe4e1''),
      (''moccasin'', ''#ffe4b5''), (''navajowhite'', ''#ffdead''), (''navy'', ''#000080''),
      (''oldlace'', ''#fdf5e6''), (''olive'', ''#808000''), (''olivedrab'', ''#6b8e23''),
      (''orange'', ''#ffa500''), (''orangered'', ''#ff4500''), (''orchid'', ''#da70d6''),
      (''palegoldenrod'', ''#eee8aa''), (''palegreen'', ''#98fb98''),
      (''paleturquoise'', ''#afeeee''), (''palevioletred'', ''#db7093''),
      (''papayawhip'', ''#ffefd5''), (''peachpuff'', ''#ffdab9''), (''peru'', ''#cd853f''),
      (''pink'', ''#ffc0cb''), (''plum'', ''#dda0dd''), (''powderblue'', ''#b0e0e6''),
      (''purple'', ''#800080''), (''rebeccapurple'', ''#663399''), (''red'', ''#ff0000''),
      (''rosybrown'', ''#bc8f8f''), (''royalblue'', ''#4169e1''),
      (''saddlebrown'', ''#8b4513''), (''salmon'', ''#fa8072''),
      (''sandybrown'', ''#f4a460''), (''seagreen'', ''#2e8b57''),
      (''seashell'', ''#fff5ee''), (''sienna'', ''#a0522d''), (''silver'', ''#c0c0c0''),
      (''skyblue'', ''#87ceeb''), (''slateblue'', ''#6a5acd''), (''slategray'', ''#708090''),
      (''slategrey'', ''#708090''), (''snow'', ''#fffafa''), (''springgreen'', ''#00ff7f''),
      (''steelblue'', ''#4682b4''), (''tan'', ''#d2b48c''), (''teal'', ''#008080''),
      (''thistle'', ''#d8bfd8''), (''tomato'', ''#ff6347''), (''turquoise'', ''#40e0d0''),
      (''violet'', ''#ee82ee''), (''wheat'', ''#f5deb3''), (''white'', ''#ffffff''),
      (''whitesmoke'', ''#f5f5f5''), (''yellow'', ''#ffff00''),
      (''yellowgreen'', ''#9acd32'')]"

text \<open>
  \<^verbatim>\<open>NAMED_COLOR_REGEX\<close>: the alternation, in the order of the table, of
  \<^verbatim>\<open>\bname\b\<close>. It has no group.
\<close>

fun alts :: "rx list \<Rightarrow> rx" where
  "alts [] = Eps"
| "alts [r] = r"
| "alts (r # rs) = Alt r (alts rs)"

definition NAMED_COLOR_REGEX :: rx where
  "NAMED_COLOR_REGEX = alts (map (\<lambda>(color, _). seqs [Bnd, lit color, Bnd]) NAMED_COLORS)"

subsection \<open>\<^verbatim>\<open>extract_colors_from_content\<close>\<close>

text \<open>
  The result maps a key to the list of spellings found. A key is the normalised
  value; it is \<open>None\<close> where \<^verbatim>\<open>NAMED_COLORS.get\<close> finds nothing.
\<close>

type_synonym color_matches = "(string option \<times> string list) list"

text \<open>
  The two \<^verbatim>\<open>if\<close> statements that end each loop body: the key gets an empty list
  when it is new, and the spelling is appended unless the list has it.
\<close>

definition add_match :: "string option \<Rightarrow> string \<Rightarrow> color_matches \<Rightarrow> color_matches" where
  "add_match key color color_matches =
     (case map_of color_matches key of
        None \<Rightarrow> AList.update key [color] color_matches
      | Some vs \<Rightarrow>
          if color \<in> set vs then color_matches
          else AList.update key (vs @ [color]) color_matches)"

text \<open>\<^verbatim>\<open>int(g)\<close> on a group: a group that took no part in the match is \<^verbatim>\<open>None\<close>.\<close>

definition int_of_group :: "string option \<Rightarrow> py_error + int" where
  "int_of_group g = (case g of None \<Rightarrow> Inl TypeError | Some s \<Rightarrow> py_int_of_str 10 s)"

definition hex_body :: "re_match \<Rightarrow> color_matches \<Rightarrow> py_error + color_matches" where
  "hex_body m color_matches =
     (let color = lower (text_of m);
          normalized = normalize_hex_color color
      in Inr (add_match (Some normalized) color color_matches))"

text \<open>
  Unpacking \<^verbatim>\<open>match.groups()\<close> into three names raises \<^verbatim>\<open>ValueError\<close> unless the
  tuple has three components.
\<close>

definition rgb_body :: "re_match \<Rightarrow> color_matches \<Rightarrow> py_error + color_matches" where
  "rgb_body m color_matches =
     (let color = text_of m
      in case groups m of
           [r0, g0, b0] \<Rightarrow>
             (case int_of_group r0 of Inl e \<Rightarrow> Inl e | Inr r \<Rightarrow>
             (case int_of_group g0 of Inl e \<Rightarrow> Inl e | Inr g \<Rightarrow>
             (case int_of_group b0 of Inl e \<Rightarrow> Inl e | Inr b \<Rightarrow>
                Inr (add_match (Some (hex_value_of r g b)) color color_matches))))
         | _ \<Rightarrow> Inl ValueError)"

text \<open>Here the tuple is unpacked into four names: \<^verbatim>\<open>r, g, b, a = match.groups()\<close>.\<close>

definition rgba_body :: "re_match \<Rightarrow> color_matches \<Rightarrow> py_error + color_matches" where
  "rgba_body m color_matches =
     (let color = text_of m
      in case groups m of
           [r0, g0, b0, a] \<Rightarrow>
             (case int_of_group r0 of Inl e \<Rightarrow> Inl e | Inr r \<Rightarrow>
             (case int_of_group g0 of Inl e \<Rightarrow> Inl e | Inr g \<Rightarrow>
             (case int_of_group b0 of Inl e \<Rightarrow> Inl e | Inr b \<Rightarrow>
                Inr (add_match (Some (hex_value_of r g b)) color color_matches))))
         | _ \<Rightarrow> Inl ValueError)"

text \<open>
  The conversion of the HSL and HSLA loops: the integers are scaled, converted by
  \<^verbatim>\<open>colorsys.hls_to_rgb\<close>, and each channel is \<^verbatim>\<open>int(c * 255)\<close>.
\<close>

definition hsl_hex_value :: "int \<Rightarrow> int \<Rightarrow> int \<Rightarrow> string" where
  "hsl_hex_value h0 s0 l0 =
     (let h = of_int h0 / 360;
          s = of_int s0 / 100;
          l = of_int l0 / 100
      in case hls_to_rgb h l s of
           (r, g, b) \<Rightarrow> hex_value_of (py_int (r * 255)) (py_int (g * 255)) (py_int (b * 255)))"

definition hsl_body :: "re_match \<Rightarrow> color_matches \<Rightarrow> py_error + color_matches" where
  "hsl_body m color_matches =
     (let color = text_of m
      in case groups m of
           [h0, s0, l0] \<Rightarrow>
             (case int_of_group h0 of Inl e \<Rightarrow> Inl e | Inr h \<Rightarrow>
             (case int_of_group s0 of Inl e \<Rightarrow> Inl e | Inr s \<Rightarrow>
             (case int_of_group l0 of Inl e \<Rightarrow> Inl e | Inr l \<Rightarrow>
                Inr (add_match (Some (hsl_hex_value h s l)) color color_matches))))
         | _ \<Rightarrow> Inl ValueError)"

definition hsla_body :: "re_match \<Rightarrow> color_matches \<Rightarrow> py_error + color_matches" where
  "hsla_body m color_matches =
     (let color = text_of m
      in case groups m of
           [h0, s0, l0, a] \<Rightarrow>
             (case int_of_group h0 of Inl e \<Rightarrow> Inl e | Inr h \<Rightarrow>
             (case int_of_group s0 of Inl e \<Rightarrow> Inl e | Inr s \<Rightarrow>
             (case int_of_group l0 of Inl e \<Rightarrow> Inl e | Inr l \<Rightarrow>
                Inr (add_match (Some (hsl_hex_value h s l)) color color_matches))))
         | _ \<Rightarrow> Inl ValueError)"

definition named_body :: "re_match \<Rightarrow> color_matches \<Rightarrow> py_error + color_matches" where
  "named_body m color_matches =
     (let color = lower (text_of m);
          hex_value = map_of NAMED_COLORS color
      in Inr (add_match hex_value color color_matches))"

text \<open>A \<^verbatim>\<open>for\<close> loop over the matches; an exception ends it.\<close>

fun for_matches ::
  "(re_match \<Rightarrow> color_matches \<Rightarrow> py_error + color_matches) \<Rightarrow> re_match list
     \<Rightarrow> color_matches \<Rightarrow> py_error + color_matches" where
  "for_matches body [] color_matches = Inr color_matches"
| "for_matches body (m # ms) color_matches =
     (case body m color_matches of Inl e \<Rightarrow> Inl e
      | Inr color_matches' \<Rightarrow> for_matches body ms color_matches')"

definition extract_colors_from_content :: "string \<Rightarrow> py_error + color_matches" where
  "extract_colors_from_content content =
     (case for_matches hex_body (finditer False HEX_COLOR_REGEX content) [] of Inl e \<Rightarrow> Inl e
      | Inr cm1 \<Rightarrow>
     (case for_matches rgb_body (finditer False RGB_COLOR_REGEX content) cm1 of Inl e \<Rightarrow> Inl e
      | Inr cm2 \<Rightarrow>
     (case for_matches rgba_body (finditer False RGBA_COLOR_REGEX content) cm2 of Inl e \<Rightarrow> Inl e
      | Inr cm3 \<Rightarrow>
     (case for_matches hsl_body (finditer False HSL_COLOR_REGEX content) cm3 of Inl e \<Rightarrow> Inl e
      | Inr cm4 \<Rightarrow>
     (case for_matches hsla_body (finditer False HSLA_COLOR_REGEX content) cm4 of Inl e \<Rightarrow> Inl e
      | Inr cm5 \<Rightarrow>
        for_matches named_body (finditer True NAMED_COLOR_REGEX content) cm5)))))"

subsection \<open>\<^verbatim>\<open>analyze_file\<close>\<close>

text \<open>
  The file system gives, for a path, the text of the file or the message of the
  exception that opening, reading or decoding it raises. The error channel
  (\<^verbatim>\<open>sys.stderr\<close>) is a list of entries, one for each line
  \<^verbatim>\<open>Error analyzing {file_path}: {e}\<close>.
\<close>

datatype file_read = Unreadable string | Content string

datatype cause = ReadFailed string | Raised py_error

type_synonym file_system = "string \<Rightarrow> file_read"

type_synonym stderr = "(string \<times> cause) list"

definition analyze_file :: "file_system \<Rightarrow> string \<Rightarrow> color_matches \<times> stderr" where
  "analyze_file fs file_path =
     (case fs file_path of
        Unreadable msg \<Rightarrow> ([], [(file_path, ReadFailed msg)])
      | Content content \<Rightarrow>
          (case extract_colors_from_content content of
             Inl e \<Rightarrow> ([], [(file_path, Raised e)])
           | Inr color_matches \<Rightarrow> (color_matches, [])))"

subsection \<open>\<^verbatim>\<open>process_files\<close>\<close>

record color_record =
  name :: "string option"
  count :: int
  variations :: "string list"
  unique :: bool
  color_format :: string
  category :: string
  locations :: "string list"

type_synonym color_data = "(string option \<times> color_record) list"

text \<open>\<^verbatim>\<open>determine_color_category\<close> on a key: \<^verbatim>\<open>None.lower()\<close> raises.\<close>

definition category_of_key :: "string option \<Rightarrow> py_error + string" where
  "category_of_key key =
     (case key of None \<Rightarrow> Inl AttributeError | Some hex_color \<Rightarrow> determine_color_category hex_color)"

definition append_new :: "string list \<Rightarrow> string \<Rightarrow> string list" where
  "append_new xs x = (if x \<in> set xs then xs else xs @ [x])"

text \<open>The body of the inner loop, for one item of \<^verbatim>\<open>file_colors\<close>.\<close>

definition process_item ::
  "string \<Rightarrow> string option \<times> string list \<Rightarrow> color_data \<Rightarrow> py_error + color_data" where
  "process_item file_str item color_data =
     (case item of (normalized_value, vars) \<Rightarrow>
        (case map_of color_data normalized_value of
           None \<Rightarrow>
             (case vars of
                [] \<Rightarrow> Inl IndexError
              | v0 # _ \<Rightarrow>
                  (case category_of_key normalized_value of
                     Inl e \<Rightarrow> Inl e
                   | Inr cat \<Rightarrow>
                       Inr (AList.update normalized_value
                              \<lparr>name = normalized_value, count = 1, variations = vars,
                               unique = True, color_format = format_of_color v0,
                               category = cat, locations = [file_str]\<rparr>
                              color_data)))
         | Some info \<Rightarrow>
             Inr (AList.update normalized_value
                    (info\<lparr>count := count info + 1,
                          variations := foldl append_new (variations info) vars,
                          locations := append_new (locations info) file_str,
                          unique := False\<rparr>)
                    color_data)))"

fun process_items ::
  "string \<Rightarrow> color_matches \<Rightarrow> color_data \<Rightarrow> py_error + color_data" where
  "process_items file_str [] color_data = Inr color_data"
| "process_items file_str (item # items) color_data =
     (case process_item file_str item color_data of Inl e \<Rightarrow> Inl e
      | Inr color_data' \<Rightarrow> process_items file_str items color_data')"

text \<open>
  The outer loop over the files, from a given \<^verbatim>\<open>color_data\<close>. An exception of the
  inner loop is not caught: it ends the run, after what was written to the error
  channel so far.
\<close>

fun process_loop ::
  "file_system \<Rightarrow> string list \<Rightarrow> color_data \<Rightarrow> (py_error + color_data) \<times> stderr" where
  "process_loop fs [] color_data = (Inr color_data, [])"
| "process_loop fs (file_path # files) color_data =
     (case analyze_file fs file_path of (file_colors, err) \<Rightarrow>
        (case process_items file_path file_colors color_data of
           Inl e \<Rightarrow> (Inl e, err)
         | Inr color_data' \<Rightarrow>
             (case process_loop fs files color_data' of (res, err') \<Rightarrow> (res, err @ err'))))"

type_synonym organized_data = "(string \<times> color_record list) list"

definition organize_step :: "organized_data \<Rightarrow> string option \<times> color_record \<Rightarrow> organized_data" where
  "organize_step organized_data item =
     (case item of (color_hex, color_info) \<Rightarrow>
        (case map_of organized_data (category color_info) of
           None \<Rightarrow> AList.update (category color_info) [color_info] organized_data
         | Some infos \<Rightarrow>
             AList.update (category color_info) (infos @ [color_info]) organized_data))"

definition organize :: "color_data \<Rightarrow> organized_data" where
  "organize color_data = foldl organize_step [] color_data"

definition process_files ::
  "file_system \<Rightarrow> string list \<Rightarrow> (py_error + organized_data) \<times> stderr" where
  "process_files fs files =
     (case process_loop fs files [] of
        (Inl e, err) \<Rightarrow> (Inl e, err)
      | (Inr color_data, err) \<Rightarrow> (Inr (organize color_data), err))"

subsection \<open>\<^verbatim>\<open>watch_files\<close>\<close>

text \<open>
  The world as one poll sees it: the modification time of each path (\<open>None\<close> where
  \<^verbatim>\<open>os.path.getmtime\<close> raises) and the file system. The loop never returns; the
  model runs it over a finite list of polls and gives what it has written by then.
  \<^verbatim>\<open>json.dumps\<close> is not modelled: a report is the data it serialises and the
  \<^verbatim>\<open>pretty\<close> flag.
\<close>

type_synonym mtimes = "string \<Rightarrow> rat option"

type_synonym mtime_dict = "(string \<times> rat) list"

datatype out_event =
    Printed_report organized_data bool
  | Wrote_report string organized_data bool
  | Printed_updated string

definition watch_init :: "mtimes \<Rightarrow> string list \<Rightarrow> mtime_dict" where
  "watch_init mt files =
     foldl (\<lambda>d file_path.
              AList.update file_path (case mt file_path of Some t \<Rightarrow> t | None \<Rightarrow> 0) d)
           [] files"

definition dict_get :: "mtime_dict \<Rightarrow> string \<Rightarrow> rat \<Rightarrow> rat" where
  "dict_get d k dflt = (case map_of d k of Some v \<Rightarrow> v | None \<Rightarrow> dflt)"

definition poll_step :: "mtimes \<Rightarrow> bool \<times> mtime_dict \<Rightarrow> string \<Rightarrow> bool \<times> mtime_dict" where
  "poll_step mt st file_path =
     (case st of (files_changed, d) \<Rightarrow>
        (case mt file_path of
           None \<Rightarrow> (files_changed, d)
         | Some mtime \<Rightarrow>
             if mtime > dict_get d file_path 0
             then (True, AList.update file_path mtime d)
             else (files_changed, d)))"

definition poll :: "mtimes \<Rightarrow> string list \<Rightarrow> mtime_dict \<Rightarrow> bool \<times> mtime_dict" where
  "poll mt files d = foldl (poll_step mt) (False, d) files"

definition emit :: "string option \<Rightarrow> bool \<Rightarrow> organized_data \<Rightarrow> out_event list" where
  "emit output_path pretty color_data =
     (case output_path of
        Some path \<Rightarrow>
          if path \<noteq> [] then [Wrote_report path color_data pretty, Printed_updated path]
          else [Printed_report color_data pretty]
      | None \<Rightarrow> [Printed_report color_data pretty])"

text \<open>
  One iteration of \<^verbatim>\<open>while True\<close> for each poll. The result is what was written, and
  the exception that ended the loop if \<^verbatim>\<open>process_files\<close> raised one.
\<close>

fun watch_loop ::
  "string list \<Rightarrow> string option \<Rightarrow> bool \<Rightarrow> (mtimes \<times> file_system) list \<Rightarrow> mtime_dict
     \<Rightarrow> out_event list \<times> py_error option" where
  "watch_loop files output_path pretty [] d = ([], None)"
| "watch_loop files output_path pretty ((mt, fs) # polls) d =
     (case poll mt files d of
        (files_changed, d') \<Rightarrow>
          if files_changed then
            (case fst (process_files fs files) of
               Inl e \<Rightarrow> ([], Some e)
             | Inr color_data \<Rightarrow>
                 (case watch_loop files output_path pretty polls d' of
                    (out, res) \<Rightarrow> (emit output_path pretty color_data @ out, res)))
          else watch_loop files output_path pretty polls d')"

definition watch_files ::
  "string list \<Rightarrow> string option \<Rightarrow> bool \<Rightarrow> mtimes \<Rightarrow> (mtimes \<times> file_system) list
     \<Rightarrow> out_event list \<times> py_error option" where
  "watch_files files output_path pretty mt0 polls =
     watch_loop files output_path pretty polls (watch_init mt0 files)"

section \<open>Reference definitions used to state the properties\<close>

subsection \<open>The textbook RGB to HSL conversion\<close>

text \<open>
  The conversion as it is usually written: chroma \<open>C\<close>, hue in degrees from the
  dominant channel, lightness the mean of the extremes, saturation
  \<open>C / (1 - |2L - 1|)\<close>. Hue is in degrees, saturation and lightness in \<open>[0, 1]\<close>.
\<close>

definition fmod6 :: "rat \<Rightarrow> rat" where
  "fmod6 x = x - 6 * of_int \<lfloor>x / 6\<rfloor>"


subsection \<open>The textbook HSL to RGB conversion\<close>






subsection \<open>Valid colours and the categories of the specification\<close>


definition is_lhex :: "char \<Rightarrow> bool" where
  "is_lhex c = ((48 \<le> code c \<and> code c \<le> 57) \<or> (97 \<le> code c \<and> code c \<le> 102))"

definition canonical :: "string \<Rightarrow> bool" where
  "canonical s =
     (case s of [] \<Rightarrow> False
      | c # ds \<Rightarrow> c = CHR ''#'' \<and> length ds = 6 \<and> list_all is_lhex ds)"




subsection \<open>Invariants of the aggregation\<close>

text \<open>
  Two states of one record have the same identity when name, format and category
  agree and the first spelling recorded is the same.
\<close>

definition same_identity :: "color_record \<Rightarrow> color_record \<Rightarrow> bool" where
  "same_identity r r' =
     (name r' = name r \<and> color_format r' = color_format r \<and> category r' = category r
      \<and> variations r' \<noteq> [] \<and> hd (variations r') = hd (variations r))"

text \<open>What every record of a run satisfies.\<close>

definition record_ok :: "string option \<Rightarrow> color_record \<Rightarrow> bool" where
  "record_ok k r =
     (name r = k \<and> variations r \<noteq> [] \<and> color_format r = format_of_color (hd (variations r))
      \<and> category_of_key k = Inr (category r))"

definition data_ok :: "color_data \<Rightarrow> bool" where
  "data_ok cd = (\<forall>k r. map_of cd k = Some r \<longrightarrow> record_ok k r)"

subsection \<open>The files that hold a colour\<close>

text \<open>
  The keys that the analysis of a file yields, and the number of entries of a list of
  files whose analysis yields a given key.
\<close>

definition keys_of :: "file_system \<Rightarrow> string \<Rightarrow> string option set" where
  "keys_of fs p = fst ` set (fst (analyze_file fs p))"

definition entries_with :: "file_system \<Rightarrow> string option \<Rightarrow> string list \<Rightarrow> nat" where
  "entries_with fs k files = length (filter (\<lambda>p. k \<in> keys_of fs p) files)"

definition counts_ok :: "color_data \<Rightarrow> (string option \<Rightarrow> nat) \<Rightarrow> bool" where
  "counts_ok cd n =
     (\<forall>k. (map_of cd k = None \<longrightarrow> n k = 0)
        \<and> (\<forall>r. map_of cd k = Some r \<longrightarrow>
               count r = int (n k) \<and> 1 \<le> n k \<and> unique r = (n k = 1)))"

text \<open>A loop body that, when it raises nothing, records one spelling under one key.\<close>

definition adds :: "(re_match \<Rightarrow> color_matches \<Rightarrow> py_error + color_matches) \<Rightarrow> bool" where
  "adds body = (\<forall>m cm cm'. body m cm = Inr cm' \<longrightarrow> (\<exists>k c. cm' = add_match k c cm))"

subsection \<open>Example file systems\<close>

definition fs_two :: file_system where
  "fs_two p = (if p = ''a.css'' then Content ''red'' else if p = ''b.css'' then Content ''#f00''
               else Unreadable ''No such file or directory'')"

definition fs_wide :: file_system where
  "fs_wide p = (if p = ''a.css'' then Content ''rgb(999999,0,0)''
                else Unreadable ''No such file or directory'')"

definition fs_alpha :: file_system where
  "fs_alpha p = (if p = ''a.css'' then Content ''#fff rgba(1,2,3,0)''
                 else if p = ''b.css'' then Content ''#fff rgba(1,2,3,1)''
                 else Unreadable ''No such file or directory'')"

definition fs_neg :: file_system where
  "fs_neg p = (if p = ''a.css'' then Content ''hsl(0, 200%, 25%)''
               else Unreadable ''No such file or directory'')"

section \<open>Properties of the colour model\<close>



lemma fmod6_range: "0 \<le> fmod6 x \<and> fmod6 x < 6"
proof -
  have "0 \<le> frac (x / 6)" "frac (x / 6) < 1"
    by (simp_all add: frac_lt_1)
  moreover have "fmod6 x = 6 * frac (x / 6)"
    by (simp add: fmod6_def frac_def algebra_simps)
  ultimately show ?thesis by simp
qed








lemma code_range: "0 \<le> code c \<and> code c < 256"
proof -
  have "code c mod 256 = code c" by (simp add: code_def)
  moreover have "0 \<le> code c mod 256 \<and> code c mod 256 < 256" by simp
  ultimately show ?thesis by simp
qed


lemma code_eq_iff: "code c = code d \<longleftrightarrow> c = d"
  by (simp add: code_def)











section \<open>Properties of the aggregation\<close>

lemma append_new_nonempty: "xs \<noteq> [] \<Longrightarrow> append_new xs x \<noteq> [] \<and> hd (append_new xs x) = hd xs"
  by (simp add: append_new_def)

lemma foldl_append_new_hd:
  "xs \<noteq> [] \<Longrightarrow> foldl append_new xs ys \<noteq> [] \<and> hd (foldl append_new xs ys) = hd xs"
proof (induction ys arbitrary: xs)
  case Nil
  then show ?case by simp
next
  case (Cons y ys)
  from append_new_nonempty [OF Cons.prems, of y]
  have a: "append_new xs y \<noteq> []" and h: "hd (append_new xs y) = hd xs" by simp_all
  from Cons.IH [OF a] h show ?case by simp
qed

lemma same_identity_refl: "variations r \<noteq> [] \<Longrightarrow> same_identity r r"
  by (simp add: same_identity_def)

lemma same_identity_trans:
  "same_identity r r' \<Longrightarrow> same_identity r' r'' \<Longrightarrow> same_identity r r''"
  by (simp add: same_identity_def)

lemma process_item_old:
  assumes "process_item file_str item cd = Inr cd'"
    and "map_of cd k = Some r" and "variations r \<noteq> []"
  shows "\<exists>r'. map_of cd' k = Some r' \<and> same_identity r r'"
proof (cases item)
  case (Pair key vars)
  show ?thesis
  proof (cases "key = k")
    case True
    with assms Pair have
      "cd' = AList.update k (r\<lparr>count := count r + 1,
                 variations := foldl append_new (variations r) vars,
                 locations := append_new (locations r) file_str,
                 unique := False\<rparr>) cd"
      by (auto simp: process_item_def)
    then show ?thesis
      using foldl_append_new_hd [OF assms(3), of vars]
      by (simp add: update_conv' same_identity_def)
  next
    case False
    with assms Pair have "map_of cd' k = map_of cd k"
      by (auto simp: process_item_def update_conv' split: option.splits list.splits sum.splits)
    with assms show ?thesis by (simp add: same_identity_refl)
  qed
qed

lemma process_items_old:
  assumes "process_items file_str items cd = Inr cd'"
    and "map_of cd k = Some r" and "variations r \<noteq> []"
  shows "\<exists>r'. map_of cd' k = Some r' \<and> same_identity r r'"
  using assms
proof (induction items arbitrary: cd r)
  case Nil
  then show ?case by (auto simp: same_identity_refl)
next
  case (Cons item items)
  from Cons.prems(1) obtain cd1 where
    s1: "process_item file_str item cd = Inr cd1" and
    s2: "process_items file_str items cd1 = Inr cd'"
    by (auto split: sum.splits)
  from process_item_old [OF s1 Cons.prems(2,3)] obtain r1 where
    m1: "map_of cd1 k = Some r1" and i1: "same_identity r r1" by blast
  from i1 have "variations r1 \<noteq> []" by (simp add: same_identity_def)
  from Cons.IH [OF s2 m1 this] obtain r' where
    "map_of cd' k = Some r'" "same_identity r1 r'" by blast
  with i1 show ?case by (blast intro: same_identity_trans)
qed

lemma process_loop_old:
  assumes "process_loop fs files cd = (Inr cd', err)"
    and "map_of cd k = Some r" and "variations r \<noteq> []"
  shows "\<exists>r'. map_of cd' k = Some r' \<and> same_identity r r'"
  using assms
proof (induction files arbitrary: cd r err)
  case Nil
  then show ?case by (auto simp: same_identity_refl)
next
  case (Cons p files)
  obtain fc e0 where a: "analyze_file fs p = (fc, e0)" by (cases "analyze_file fs p")
  from Cons.prems(1) a obtain cd1 e1 where
    s1: "process_items p fc cd = Inr cd1" and
    s2: "process_loop fs files cd1 = (Inr cd', e1)"
    by (auto split: sum.splits prod.splits)
  from process_items_old [OF s1 Cons.prems(2,3)] obtain r1 where
    m1: "map_of cd1 k = Some r1" and i1: "same_identity r r1" by blast
  from i1 have "variations r1 \<noteq> []" by (simp add: same_identity_def)
  from Cons.IH [OF s2 m1 this] obtain r' where
    "map_of cd' k = Some r'" "same_identity r1 r'" by blast
  with i1 show ?case by (blast intro: same_identity_trans)
qed

lemma process_item_ok:
  assumes "process_item file_str item cd = Inr cd'" and "data_ok cd"
  shows "data_ok cd'"
proof (cases item)
  case (Pair key vars)
  show ?thesis
  proof (cases "map_of cd key")
    case None
    with assms Pair obtain v0 vs cat where
      v: "vars = v0 # vs" and c: "category_of_key key = Inr cat" and
      cd': "cd' = AList.update key \<lparr>name = key, count = 1, variations = vars,
                               unique = True, color_format = format_of_color v0,
                               category = cat, locations = [file_str]\<rparr> cd"
      by (auto simp: process_item_def split: list.splits sum.splits)
    show ?thesis
      unfolding data_ok_def cd' update_conv'
      using assms(2) v c by (auto simp: data_ok_def record_ok_def)
  next
    case (Some info)
    with assms Pair have
      cd': "cd' = AList.update key (info\<lparr>count := count info + 1,
                 variations := foldl append_new (variations info) vars,
                 locations := append_new (locations info) file_str,
                 unique := False\<rparr>) cd"
      by (auto simp: process_item_def)
    from assms(2) Some have ok: "record_ok key info" by (simp add: data_ok_def)
    then have ne: "variations info \<noteq> []" by (simp add: record_ok_def)
    show ?thesis
      unfolding data_ok_def cd' update_conv'
      using assms(2) ok foldl_append_new_hd [OF ne, of vars]
      by (auto simp: data_ok_def record_ok_def)
  qed
qed

lemma process_items_ok:
  "process_items file_str items cd = Inr cd' \<Longrightarrow> data_ok cd \<Longrightarrow> data_ok cd'"
proof (induction items arbitrary: cd)
  case Nil
  then show ?case by simp
next
  case (Cons item items)
  then show ?case by (auto split: sum.splits dest: process_item_ok)
qed

lemma process_loop_ok:
  "process_loop fs files cd = (Inr cd', err) \<Longrightarrow> data_ok cd \<Longrightarrow> data_ok cd'"
proof (induction files arbitrary: cd err)
  case Nil
  then show ?case by simp
next
  case (Cons p files)
  obtain fc e0 where a: "analyze_file fs p = (fc, e0)" by (cases "analyze_file fs p")
  from Cons.prems(1) a obtain cd1 e1 where
    s1: "process_items p fc cd = Inr cd1" and
    s2: "process_loop fs files cd1 = (Inr cd', e1)"
    by (auto split: sum.splits prod.splits)
  from process_items_ok [OF s1 Cons.prems(2)] have "data_ok cd1" .
  from Cons.IH [OF s2 this] show ?case .
qed

lemma data_ok_empty: "data_ok []"
  by (simp add: data_ok_def)

text \<open>
  Claim C8. A record keeps the name, the format and the category it was created
  with: after any run from the empty state, whatever files are processed later, the
  record of a colour has the same \<^const>\<open>name\<close> (its key), \<^const>\<open>category\<close> and
  \<^const>\<open>color_format\<close>, and the format is that of the first spelling recorded, which
  stays the head of \<^const>\<open>variations\<close>.
\<close>

theorem color_format_fixed_at_first_sight:
  assumes "process_loop fs files [] = (Inr cd1, e1)"
    and "process_loop fs later cd1 = (Inr cd2, e2)"
    and "map_of cd1 k = Some r"
  shows "\<exists>r'. map_of cd2 k = Some r'
           \<and> name r' = name r \<and> color_format r' = color_format r \<and> category r' = category r
           \<and> name r = k \<and> variations r \<noteq> []
           \<and> color_format r = format_of_color (hd (variations r))
           \<and> hd (variations r') = hd (variations r)"
proof -
  from process_loop_ok [OF assms(1) data_ok_empty] assms(3)
  have ok: "record_ok k r" by (simp add: data_ok_def)
  then have ne: "variations r \<noteq> []" by (simp add: record_ok_def)
  from process_loop_old [OF assms(2,3) ne] obtain r' where
    "map_of cd2 k = Some r'" "same_identity r r'" by blast
  with ok show ?thesis by (auto simp: same_identity_def record_ok_def)
qed

lemma ex_red: "extract_colors_from_content ''red'' = Inr [(Some ''#ff0000'', [''red''])]"
  by code_simp

lemma ex_f00: "extract_colors_from_content ''#f00'' = Inr [(Some ''#ff0000'', [''#f00''])]"
  by code_simp

lemma cat_red: "determine_color_category ''#ff0000'' = Inr ''red''"
  by code_simp

lemma run1: "process_loop fs_two [''a.css''] [] =
  (Inr [(Some ''#ff0000'', \<lparr>name = Some ''#ff0000'', count = 1, variations = [''red''],
          unique = True, color_format = ''named'', category = ''red'',
          locations = [''a.css'']\<rparr>)], [])"
  by (simp add: fs_two_def analyze_file_def ex_red process_item_def category_of_key_def cat_red
      format_of_color_def)

lemma run1_files: "process_files fs_two [''a.css''] =
  (Inr [(''red'', [\<lparr>name = Some ''#ff0000'', count = 1, variations = [''red''],
          unique = True, color_format = ''named'', category = ''red'',
          locations = [''a.css'']\<rparr>])], [])"
  unfolding process_files_def run1 by (simp add: organize_def organize_step_def)

lemma run2: "process_loop fs_two [''b.css'']
   [(Some ''#ff0000'', \<lparr>name = Some ''#ff0000'', count = 1, variations = [''red''],
          unique = True, color_format = ''named'', category = ''red'',
          locations = [''a.css'']\<rparr>)] =
  (Inr [(Some ''#ff0000'', \<lparr>name = Some ''#ff0000'', count = 2, variations = [''red'', ''#f00''],
          unique = False, color_format = ''named'', category = ''red'',
          locations = [''a.css'', ''b.css'']\<rparr>)], [])"
  by (simp add: fs_two_def analyze_file_def ex_f00 process_item_def append_new_def)

theorem color_format_fixed_at_first_sight_witness:
  "process_loop fs_two [''a.css''] [] =
     (Inr [(Some ''#ff0000'', \<lparr>name = Some ''#ff0000'', count = 1, variations = [''red''],
          unique = True, color_format = ''named'', category = ''red'',
          locations = [''a.css'']\<rparr>)], [])
   \<and> process_loop fs_two [''b.css'']
        [(Some ''#ff0000'', \<lparr>name = Some ''#ff0000'', count = 1, variations = [''red''],
          unique = True, color_format = ''named'', category = ''red'',
          locations = [''a.css'']\<rparr>)] =
     (Inr [(Some ''#ff0000'', \<lparr>name = Some ''#ff0000'', count = 2,
          variations = [''red'', ''#f00''], unique = False, color_format = ''named'',
          category = ''red'', locations = [''a.css'', ''b.css'']\<rparr>)], [])
   \<and> format_of_color ''red'' = ''named'' \<and> format_of_color ''#f00'' = ''hex''"
proof -
  have m: "map_of [(Some ''#ff0000'', \<lparr>name = Some ''#ff0000'', count = 1,
          variations = [''red''], unique = True, color_format = ''named'', category = ''red'',
          locations = [''a.css'']\<rparr>)] (Some ''#ff0000'') =
       Some \<lparr>name = Some ''#ff0000'', count = 1,
          variations = [''red''], unique = True, color_format = ''named'', category = ''red'',
          locations = [''a.css'']\<rparr>" by simp
  from color_format_fixed_at_first_sight [OF run1 run2 m]
  have "format_of_color (hd [''red'']) = ''named''" by simp
  then show ?thesis using run1 run2 by (simp add: format_of_color_def)
qed

lemma process_loop_append:
  "process_loop fs (xs @ ys) cd =
     (case process_loop fs xs cd of
        (Inl e, err) \<Rightarrow> (Inl e, err)
      | (Inr cd', err) \<Rightarrow> (case process_loop fs ys cd' of (res, err') \<Rightarrow> (res, err @ err')))"
proof (induction xs arbitrary: cd)
  case Nil
  then show ?case by (simp split: prod.splits)
next
  case (Cons p xs)
  show ?case
    by (simp add: Cons.IH split: prod.splits sum.splits)
qed

lemma analyze_unreadable:
  "fs p = Unreadable msg \<Longrightarrow> analyze_file fs p = ([], [(p, ReadFailed msg)])"
  by (simp add: analyze_file_def)

lemma process_loop_unreadable:
  "fs p = Unreadable msg \<Longrightarrow>
     process_loop fs (p # files) cd =
       (case process_loop fs files cd of (res, err) \<Rightarrow> (res, (p, ReadFailed msg) # err))"
  by (simp add: analyze_unreadable split: prod.splits)

text \<open>
  Claim C9. When reading a file fails, \<^const>\<open>analyze_file\<close> gives no colour and writes
  one entry to the error channel; the loop goes on with the remaining files from the
  same state, so the data of the run is that of the run without the file, and the
  entry stands in the error channel between those of the files before and after.
\<close>

theorem read_failure_is_skipped:
  assumes "fs p = Unreadable msg"
  shows "analyze_file fs p = ([], [(p, ReadFailed msg)])
       \<and> process_loop fs (p # files) cd =
           (case process_loop fs files cd of (res, err) \<Rightarrow> (res, (p, ReadFailed msg) # err))
       \<and> fst (process_files fs (before @ p # files)) = fst (process_files fs (before @ files))
       \<and> (\<forall>cd1 e1. process_loop fs before [] = (Inr cd1, e1) \<longrightarrow>
            snd (process_files fs (before @ p # files))
              = e1 @ (p, ReadFailed msg) # snd (process_loop fs files cd1))"
proof (intro conjI allI impI)
  note u = process_loop_unreadable [of fs p msg, OF assms]
  show "analyze_file fs p = ([], [(p, ReadFailed msg)])"
    using assms by (rule analyze_unreadable)
  show "process_loop fs (p # files) cd =
           (case process_loop fs files cd of (res, err) \<Rightarrow> (res, (p, ReadFailed msg) # err))"
    using assms by (rule process_loop_unreadable)
  show "fst (process_files fs (before @ p # files)) = fst (process_files fs (before @ files))"
    unfolding process_files_def process_loop_append u
    by (simp split: prod.splits sum.splits)
  fix cd1 e1
  assume "process_loop fs before [] = (Inr cd1, e1)"
  then show "snd (process_files fs (before @ p # files))
              = e1 @ (p, ReadFailed msg) # snd (process_loop fs files cd1)"
    unfolding process_files_def process_loop_append u
    by (simp split: prod.splits sum.splits)
qed

theorem read_failure_is_skipped_witness:
  "fs_two ''zz.css'' = Unreadable ''No such file or directory''
   \<and> process_files fs_two [''zz.css'', ''a.css''] =
       (Inr [(''red'', [\<lparr>name = Some ''#ff0000'', count = 1, variations = [''red''],
          unique = True, color_format = ''named'', category = ''red'',
          locations = [''a.css'']\<rparr>])],
        [(''zz.css'', ReadFailed ''No such file or directory'')])"
proof -
  have u: "fs_two ''zz.css'' = Unreadable ''No such file or directory''"
    by (simp add: fs_two_def)
  from read_failure_is_skipped [of fs_two "''zz.css''" "''No such file or directory''"
      "[''a.css'']" "[]" "[]", OF u]
  have "process_loop fs_two [''zz.css'', ''a.css''] [] =
          (case process_loop fs_two [''a.css''] [] of
             (res, err) \<Rightarrow> (res, (''zz.css'', ReadFailed ''No such file or directory'') # err))"
    by simp
  then have "process_loop fs_two [''zz.css'', ''a.css''] [] =
     (Inr [(Some ''#ff0000'', \<lparr>name = Some ''#ff0000'', count = 1, variations = [''red''],
          unique = True, color_format = ''named'', category = ''red'',
          locations = [''a.css'']\<rparr>)],
      [(''zz.css'', ReadFailed ''No such file or directory'')])"
    by (simp only: run1 prod.case)
  then have "process_files fs_two [''zz.css'', ''a.css''] =
       (Inr [(''red'', [\<lparr>name = Some ''#ff0000'', count = 1, variations = [''red''],
          unique = True, color_format = ''named'', category = ''red'',
          locations = [''a.css'']\<rparr>])],
        [(''zz.css'', ReadFailed ''No such file or directory'')])"
    unfolding process_files_def by (simp add: organize_def organize_step_def)
  with u show ?thesis by (simp only: simp_thms)
qed

subsection \<open>Counting the files of a colour\<close>

lemma add_match_keys: "fst ` set (add_match k c cm) = insert k (fst ` set cm)"
  by (auto simp: add_match_def dom_update split: option.splits dest: map_of_SomeD
      simp: rev_image_eqI)

lemma add_match_distinct: "distinct (map fst cm) \<Longrightarrow> distinct (map fst (add_match k c cm))"
  by (auto simp: add_match_def distinct_update split: option.splits)

lemma for_matches_distinct:
  assumes "adds body"
  shows "for_matches body ms cm = Inr cm' \<Longrightarrow> distinct (map fst cm) \<Longrightarrow> distinct (map fst cm')"
proof (induction ms arbitrary: cm)
  case Nil
  then show ?case by simp
next
  case (Cons m ms)
  from Cons.prems(1) obtain cm1 where
    b: "body m cm = Inr cm1" and r: "for_matches body ms cm1 = Inr cm'"
    by (auto split: sum.splits)
  from assms b obtain k c where "cm1 = add_match k c cm" unfolding adds_def by blast
  with Cons.prems(2) have "distinct (map fst cm1)" by (simp add: add_match_distinct)
  from Cons.IH [OF r this] show ?case .
qed

lemma adds_hex: "adds hex_body"
  by (auto simp: adds_def hex_body_def Let_def)

lemma adds_rgb: "adds rgb_body"
  by (auto simp: adds_def rgb_body_def Let_def split: list.splits sum.splits)

lemma adds_rgba: "adds rgba_body"
  by (auto simp: adds_def rgba_body_def Let_def split: list.splits sum.splits)

lemma adds_hsl: "adds hsl_body"
  by (auto simp: adds_def hsl_body_def Let_def split: list.splits sum.splits)

lemma adds_hsla: "adds hsla_body"
  by (auto simp: adds_def hsla_body_def Let_def split: list.splits sum.splits)

lemma adds_named: "adds named_body"
  by (auto simp: adds_def named_body_def Let_def)

lemma extract_distinct:
  assumes "extract_colors_from_content content = Inr cm"
  shows "distinct (map fst cm)"
proof -
  from assms obtain cm1 cm2 cm3 cm4 cm5 where
    s1: "for_matches hex_body (finditer False HEX_COLOR_REGEX content) [] = Inr cm1" and
    s2: "for_matches rgb_body (finditer False RGB_COLOR_REGEX content) cm1 = Inr cm2" and
    s3: "for_matches rgba_body (finditer False RGBA_COLOR_REGEX content) cm2 = Inr cm3" and
    s4: "for_matches hsl_body (finditer False HSL_COLOR_REGEX content) cm3 = Inr cm4" and
    s5: "for_matches hsla_body (finditer False HSLA_COLOR_REGEX content) cm4 = Inr cm5" and
    s6: "for_matches named_body (finditer True NAMED_COLOR_REGEX content) cm5 = Inr cm"
    by (auto simp: extract_colors_from_content_def split: sum.splits)
  have "distinct (map fst cm1)" using for_matches_distinct [OF adds_hex s1] by simp
  then have "distinct (map fst cm2)" by (rule for_matches_distinct [OF adds_rgb s2])
  then have "distinct (map fst cm3)" by (rule for_matches_distinct [OF adds_rgba s3])
  then have "distinct (map fst cm4)" by (rule for_matches_distinct [OF adds_hsl s4])
  then have "distinct (map fst cm5)" by (rule for_matches_distinct [OF adds_hsla s5])
  then show ?thesis by (rule for_matches_distinct [OF adds_named s6])
qed

lemma analyze_distinct: "distinct (map fst (fst (analyze_file fs p)))"
  by (auto simp: analyze_file_def extract_distinct split: file_read.splits sum.splits)

lemma process_item_counts:
  assumes "process_item p (k, vs) cd = Inr cd'" and "counts_ok cd n"
  shows "counts_ok cd' (n(k := n k + 1))"
proof (cases "map_of cd k")
  case None
  with assms(1) obtain v0 cat where
    cd': "cd' = AList.update k \<lparr>name = k, count = 1, variations = vs,
                               unique = True, color_format = format_of_color v0,
                               category = cat, locations = [p]\<rparr> cd"
    by (auto simp: process_item_def split: list.splits sum.splits)
  from assms(2) None have nk: "n k = 0" by (simp add: counts_ok_def)
  show ?thesis
    unfolding counts_ok_def
  proof (intro allI conjI impI)
    fix k'
    assume "map_of cd' k' = None"
    then have "k' \<noteq> k" "map_of cd k' = None"
      by (auto simp: cd' update_conv' split: if_splits)
    with assms(2) show "(n(k := n k + 1)) k' = 0" by (simp add: counts_ok_def)
  next
    fix k' r
    assume m: "map_of cd' k' = Some r"
    show "count r = int ((n(k := n k + 1)) k')"
      and "1 \<le> (n(k := n k + 1)) k'"
      and "unique r = ((n(k := n k + 1)) k' = 1)"
    proof -
      show "count r = int ((n(k := n k + 1)) k')"
        using m assms(2) nk by (auto simp: cd' update_conv' counts_ok_def split: if_splits)
      show "1 \<le> (n(k := n k + 1)) k'"
        using m assms(2) nk by (auto simp: cd' update_conv' counts_ok_def split: if_splits)
      show "unique r = ((n(k := n k + 1)) k' = 1)"
        using m assms(2) nk by (auto simp: cd' update_conv' counts_ok_def split: if_splits)
    qed
  qed
next
  case (Some info)
  with assms(1) have
    cd': "cd' = AList.update k (info\<lparr>count := count info + 1,
                 variations := foldl append_new (variations info) vs,
                 locations := append_new (locations info) p,
                 unique := False\<rparr>) cd"
    by (auto simp: process_item_def)
  from assms(2) Some have ik: "count info = int (n k)" "1 \<le> n k"
    by (simp_all add: counts_ok_def)
  show ?thesis
    unfolding counts_ok_def
  proof (intro allI conjI impI)
    fix k'
    assume "map_of cd' k' = None"
    then have "k' \<noteq> k" "map_of cd k' = None"
      by (auto simp: cd' update_conv' split: if_splits)
    with assms(2) show "(n(k := n k + 1)) k' = 0" by (simp add: counts_ok_def)
  next
    fix k' r
    assume m: "map_of cd' k' = Some r"
    show "count r = int ((n(k := n k + 1)) k')"
      and "1 \<le> (n(k := n k + 1)) k'"
      and "unique r = ((n(k := n k + 1)) k' = 1)"
    proof -
      show "count r = int ((n(k := n k + 1)) k')"
        using m assms(2) ik by (auto simp: cd' update_conv' counts_ok_def split: if_splits)
      show "1 \<le> (n(k := n k + 1)) k'"
        using m assms(2) ik by (auto simp: cd' update_conv' counts_ok_def split: if_splits)
      show "unique r = ((n(k := n k + 1)) k' = 1)"
        using m assms(2) ik by (auto simp: cd' update_conv' counts_ok_def split: if_splits)
    qed
  qed
qed

lemma process_items_counts:
  assumes "process_items p items cd = Inr cd'" and "counts_ok cd n"
    and "distinct (map fst items)"
  shows "counts_ok cd' (\<lambda>k. n k + (if k \<in> fst ` set items then 1 else 0))"
  using assms
proof (induction items arbitrary: cd n)
  case Nil
  then show ?case by simp
next
  case (Cons item items)
  obtain k vs where item: "item = (k, vs)" by (cases item)
  from Cons.prems(1) item obtain cd1 where
    s1: "process_item p (k, vs) cd = Inr cd1" and
    s2: "process_items p items cd1 = Inr cd'"
    by (auto split: sum.splits)
  from process_item_counts [OF s1 Cons.prems(2)] have c1: "counts_ok cd1 (n(k := n k + 1))" .
  from Cons.prems(3) item have d: "distinct (map fst items)" and nk: "k \<notin> fst ` set items"
    by auto
  from Cons.IH [OF s2 c1 d]
  have "counts_ok cd' (\<lambda>k'. (n(k := n k + 1)) k' + (if k' \<in> fst ` set items then 1 else 0))" .
  moreover have "(\<lambda>k'. (n(k := n k + 1)) k' + (if k' \<in> fst ` set items then 1 else 0))
                 = (\<lambda>k'. n k' + (if k' \<in> fst ` set (item # items) then 1 else 0))"
    using nk item by (auto simp: fun_eq_iff)
  ultimately show ?case by simp
qed

lemma process_loop_counts:
  assumes "process_loop fs files cd = (Inr cd', err)" and "counts_ok cd n"
  shows "counts_ok cd' (\<lambda>k. n k + entries_with fs k files)"
  using assms
proof (induction files arbitrary: cd n err)
  case Nil
  then show ?case by (simp add: entries_with_def)
next
  case (Cons p files)
  obtain fc e0 where a: "analyze_file fs p = (fc, e0)" by (cases "analyze_file fs p")
  from Cons.prems(1) a obtain cd1 e1 where
    s1: "process_items p fc cd = Inr cd1" and
    s2: "process_loop fs files cd1 = (Inr cd', e1)"
    by (auto split: sum.splits prod.splits)
  from analyze_distinct [of fs p] a have d: "distinct (map fst fc)" by simp
  from process_items_counts [OF s1 Cons.prems(2) d]
  have c1: "counts_ok cd1 (\<lambda>k. n k + (if k \<in> fst ` set fc then 1 else 0))" .
  from Cons.IH [OF s2 c1]
  have "counts_ok cd' (\<lambda>k. n k + (if k \<in> fst ` set fc then 1 else 0) + entries_with fs k files)" .
  moreover have "(\<lambda>k. n k + (if k \<in> fst ` set fc then 1 else 0) + entries_with fs k files)
                 = (\<lambda>k. n k + entries_with fs k (p # files))"
    using a by (auto simp: fun_eq_iff entries_with_def keys_of_def)
  ultimately show ?case by simp
qed

lemma counts_ok_empty: "counts_ok [] (\<lambda>k. 0)"
  by (simp add: counts_ok_def)

text \<open>
  In a run from the empty state, \<^const>\<open>count\<close> is the number of entries of the list of
  files whose analysis holds the colour, and \<^const>\<open>unique\<close> says that this number is
  one. When no path is listed twice, that is the number of distinct files.
\<close>

lemma count_is_entries:
  assumes "process_loop fs files [] = (Inr cd, err)" and "map_of cd k = Some r"
  shows "count r = int (entries_with fs k files) \<and> (unique r \<longleftrightarrow> entries_with fs k files = 1)"
proof -
  from process_loop_counts [OF assms(1) counts_ok_empty]
  have "counts_ok cd (\<lambda>k. 0 + entries_with fs k files)" .
  with assms(2) show ?thesis by (simp add: counts_ok_def)
qed

lemma entries_with_distinct:
  "distinct files \<Longrightarrow> entries_with fs k files = card {p \<in> set files. k \<in> keys_of fs p}"
  unfolding entries_with_def by (simp add: distinct_length_filter Int_def conj_commute)

lemma count_distinct_files:
  assumes "process_loop fs files [] = (Inr cd, err)" and "map_of cd k = Some r"
    and "distinct files"
  shows "count r = int (card {p \<in> set files. k \<in> keys_of fs p})
          \<and> (unique r \<longleftrightarrow> card {p \<in> set files. k \<in> keys_of fs p} = 1)"
  using count_is_entries [OF assms(1,2)] entries_with_distinct [OF assms(3)] by simp

lemma run_dup: "process_loop fs_two [''a.css'', ''a.css''] [] =
  (Inr [(Some ''#ff0000'', \<lparr>name = Some ''#ff0000'', count = 2, variations = [''red''],
          unique = False, color_format = ''named'', category = ''red'',
          locations = [''a.css'']\<rparr>)], [])"
  by (simp add: fs_two_def analyze_file_def ex_red process_item_def category_of_key_def cat_red
      format_of_color_def append_new_def)

text \<open>
  Claim C3. The claim is that \<^const>\<open>count\<close> is the number of distinct files that hold
  the colour. The loop adds one for each entry of the list of files: with one path
  listed twice the count is 2, while \<^const>\<open>locations\<close>, which is checked for
  duplicates, holds the one path.
\<close>

theorem duplicate_path_counted_twice:
  "process_files fs_two [''a.css'', ''a.css''] =
     (Inr [(''red'', [\<lparr>name = Some ''#ff0000'', count = 2, variations = [''red''],
          unique = False, color_format = ''named'', category = ''red'',
          locations = [''a.css'']\<rparr>])], [])
   \<and> card (set [''a.css'', ''a.css'']) = 1"
  unfolding process_files_def run_dup by (simp add: organize_def organize_step_def)

text \<open>
  Claim C4. The claim is that \<^const>\<open>unique\<close> is true exactly while one file has shown
  the colour. With one path listed twice the second pass over the same file sets
  \<^const>\<open>unique\<close> to false, although \<^const>\<open>locations\<close> holds one file.
\<close>

theorem duplicate_path_not_unique:
  "(case process_loop fs_two [''a.css'', ''a.css''] [] of
      (Inr color_data, err) \<Rightarrow>
        map_option (\<lambda>r. (unique r, locations r)) (map_of color_data (Some ''#ff0000''))
    | (Inl e, err) \<Rightarrow> None) = Some (False, [''a.css''])"
  unfolding run_dup by simp

section \<open>Properties of watch mode\<close>

lemma poll_step_quiet:
  assumes "\<forall>t. mt p = Some t \<longrightarrow> t \<le> dict_get d p 0"
  shows "poll_step mt (ch, d) p = (ch, d)"
  using assms by (auto simp: poll_step_def split: option.splits)

lemma foldl_poll_quiet:
  assumes "\<forall>p\<in>set files. \<forall>t. mt p = Some t \<longrightarrow> t \<le> dict_get d p 0"
  shows "foldl (poll_step mt) (ch, d) files = (ch, d)"
  using assms
proof (induction files)
  case Nil
  then show ?case by simp
next
  case (Cons p files)
  then have "poll_step mt (ch, d) p = (ch, d)" by (intro poll_step_quiet) simp
  with Cons show ?case by simp
qed

lemma poll_quiet:
  "\<forall>p\<in>set files. \<forall>t. mt p = Some t \<longrightarrow> t \<le> dict_get d p 0 \<Longrightarrow> poll mt files d = (False, d)"
  by (simp add: poll_def foldl_poll_quiet)

lemma foldl_poll_stays_changed: "fst (foldl (poll_step mt) (True, d) files) = True"
proof (induction files arbitrary: d)
  case Nil
  then show ?case by simp
next
  case (Cons p files)
  have "\<exists>d'. poll_step mt (True, d) p = (True, d')"
    by (auto simp: poll_step_def split: option.splits)
  with Cons show ?case by auto
qed

lemma foldl_poll_changed:
  "fst (foldl (poll_step mt) (ch, d) files)
     = (ch \<or> (\<exists>p\<in>set files. \<exists>t. mt p = Some t \<and> dict_get d p 0 < t))"
proof (induction files arbitrary: ch d)
  case Nil
  then show ?case by simp
next
  case (Cons p files)
  show ?case
  proof (cases "\<exists>t. mt p = Some t \<and> dict_get d p 0 < t")
    case True
    then obtain t where t: "mt p = Some t" "dict_get d p 0 < t" by blast
    then have "poll_step mt (ch, d) p = (True, AList.update p t d)"
      by (simp add: poll_step_def)
    then show ?thesis using True by (simp add: foldl_poll_stays_changed)
  next
    case False
    then have "poll_step mt (ch, d) p = (ch, d)"
      by (intro poll_step_quiet) (auto simp: not_less)
    then show ?thesis using False by (auto simp: Cons.IH)
  qed
qed

lemma poll_changed_iff:
  "fst (poll mt files d) = (\<exists>p\<in>set files. \<exists>t. mt p = Some t \<and> dict_get d p 0 < t)"
  by (simp add: poll_def foldl_poll_changed)

lemma watch_loop_quiet:
  assumes "\<forall>(mt, fs)\<in>set polls. \<forall>p\<in>set files. \<forall>t. mt p = Some t \<longrightarrow> t \<le> dict_get d p 0"
  shows "watch_loop files output_path pretty polls d = ([], None)"
  using assms
proof (induction polls)
  case Nil
  then show ?case by simp
next
  case (Cons poll0 polls)
  obtain mt fs where p0: "poll0 = (mt, fs)" by (cases poll0)
  from Cons.prems p0 have "poll mt files d = (False, d)"
    by (intro poll_quiet) auto
  moreover from Cons have "watch_loop files output_path pretty polls d = ([], None)" by simp
  ultimately show ?case by (simp add: p0)
qed

lemma map_of_foldl_update_other:
  "p \<notin> set files \<Longrightarrow> map_of (foldl (\<lambda>d q. AList.update q (f q) d) d0 files) p = map_of d0 p"
  by (induction files arbitrary: d0) (auto simp: update_conv')

lemma map_of_foldl_update:
  "p \<in> set files \<Longrightarrow> map_of (foldl (\<lambda>d q. AList.update q (f q) d) d0 files) p = Some (f p)"
proof (induction files arbitrary: d0)
  case Nil
  then show ?case by simp
next
  case (Cons q files)
  show ?case
  proof (cases "p \<in> set files")
    case True
    then show ?thesis by (simp add: Cons.IH)
  next
    case False
    with Cons.prems have "q = p" by simp
    with False show ?thesis by (simp add: map_of_foldl_update_other update_conv')
  qed
qed

lemma watch_init_records:
  "p \<in> set files \<Longrightarrow>
     dict_get (watch_init mt0 files) p 0 = (case mt0 p of Some t \<Rightarrow> t | None \<Rightarrow> 0)"
  by (simp add: dict_get_def watch_init_def map_of_foldl_update)

lemma watch_step_quiet:
  assumes "\<forall>p\<in>set files. \<forall>t. mt p = Some t \<longrightarrow> t \<le> dict_get d p 0"
  shows "watch_loop files output_path pretty ((mt, fs) # polls) d
           = watch_loop files output_path pretty polls d"
  using poll_quiet [OF assms] by simp

lemma watch_files_quiet:
  assumes "\<forall>(mt, fs)\<in>set polls. \<forall>p\<in>set files. \<forall>t.
             mt p = Some t \<longrightarrow> t \<le> (case mt0 p of Some t0 \<Rightarrow> t0 | None \<Rightarrow> 0)"
  shows "watch_files files output_path pretty mt0 polls = ([], None)"
  unfolding watch_files_def
proof (rule watch_loop_quiet)
  show "\<forall>(mt, fs)\<in>set polls. \<forall>p\<in>set files. \<forall>t.
          mt p = Some t \<longrightarrow> t \<le> dict_get (watch_init mt0 files) p 0"
    using assms by (auto simp: watch_init_records)
qed

text \<open>
  Claim C10. Watch mode writes nothing before the first poll. A poll sets
  \<^verbatim>\<open>files_changed\<close> exactly when some file's modification time is above the one last
  recorded for it; a poll that sees no such time writes nothing and leaves the
  recorded times as they are. Hence over any list of polls in which every time read
  is at most the time recorded before the first poll (zero where it could not be
  read), no report is written.
\<close>

theorem watch_reports_only_after_change:
  "watch_files files output_path pretty mt0 [] = ([], None)
   \<and> fst (poll mt files d) = (\<exists>p\<in>set files. \<exists>t. mt p = Some t \<and> dict_get d p 0 < t)
   \<and> ((\<forall>p\<in>set files. \<forall>t. mt p = Some t \<longrightarrow> t \<le> dict_get d p 0) \<longrightarrow>
        watch_loop files output_path pretty ((mt, fs) # polls) d
          = watch_loop files output_path pretty polls d)
   \<and> ((\<forall>(mt, fs)\<in>set polls. \<forall>p\<in>set files. \<forall>t.
          mt p = Some t \<longrightarrow> t \<le> (case mt0 p of Some t0 \<Rightarrow> t0 | None \<Rightarrow> 0)) \<longrightarrow>
        watch_files files output_path pretty mt0 polls = ([], None))"
proof (intro conjI impI)
  show "watch_files files output_path pretty mt0 [] = ([], None)"
    by (simp add: watch_files_def)
  show "fst (poll mt files d) = (\<exists>p\<in>set files. \<exists>t. mt p = Some t \<and> dict_get d p 0 < t)"
    by (rule poll_changed_iff)
next
  assume "\<forall>p\<in>set files. \<forall>t. mt p = Some t \<longrightarrow> t \<le> dict_get d p 0"
  then show "watch_loop files output_path pretty ((mt, fs) # polls) d
          = watch_loop files output_path pretty polls d"
    by (rule watch_step_quiet)
next
  assume "\<forall>(mt, fs)\<in>set polls. \<forall>p\<in>set files. \<forall>t.
          mt p = Some t \<longrightarrow> t \<le> (case mt0 p of Some t0 \<Rightarrow> t0 | None \<Rightarrow> 0)"
  then show "watch_files files output_path pretty mt0 polls = ([], None)"
    by (rule watch_files_quiet)
qed

theorem watch_reports_only_after_change_witness:
  "watch_files [''a.css''] None False (\<lambda>p. Some 5) [(\<lambda>p. Some 5, fs_two), (\<lambda>p. Some 3, fs_two)]
     = ([], None)
   \<and> watch_files [''a.css''] None False (\<lambda>p. Some 5) [] = ([], None)
   \<and> watch_files [''a.css''] None False (\<lambda>p. Some 5) [(\<lambda>p. Some 6, fs_two)]
     = ([Printed_report [(''red'', [\<lparr>name = Some ''#ff0000'', count = 1,
          variations = [''red''], unique = True, color_format = ''named'', category = ''red'',
          locations = [''a.css'']\<rparr>])] False], None)"
proof -
  have a: "watch_files [''a.css''] None False (\<lambda>p. Some 5)
             [(\<lambda>p. Some 5, fs_two), (\<lambda>p. Some 3, fs_two)] = ([], None)"
    using watch_reports_only_after_change
      [of "[''a.css'']" None False "\<lambda>p. Some 5" "\<lambda>p. Some 5" "[]" fs_two
          "[(\<lambda>p. Some 5, fs_two), (\<lambda>p. Some 3, fs_two)]"]
    by simp
  have b: "watch_files [''a.css''] None False (\<lambda>p. Some 5) [] = ([], None)"
    by (simp add: watch_files_def)
  have c: "watch_files [''a.css''] None False (\<lambda>p. Some 5) [(\<lambda>p. Some 6, fs_two)]
     = ([Printed_report [(''red'', [\<lparr>name = Some ''#ff0000'', count = 1,
          variations = [''red''], unique = True, color_format = ''named'', category = ''red'',
          locations = [''a.css'']\<rparr>])] False], None)"
    by (simp add: watch_files_def watch_init_def poll_def poll_step_def dict_get_def
        run1_files emit_def)
  from a b c show ?thesis by simp
qed

section \<open>Properties of the extraction\<close>

lemma greedy_caps: "(pre', post', caps') \<in> set (greedy k lo (pre, post, caps)) \<Longrightarrow> caps' = caps"
  by (auto simp: greedy_def Let_def)

lemma rmatch_caps_length:
  "(pre', post', caps') \<in> set (rmatch ic r (pre, post, caps)) \<Longrightarrow> length caps' = length caps"
proof (induction r arbitrary: pre post caps pre' post' caps')
  case Eps
  then show ?case by simp
next
  case (Chr c)
  then show ?case by (auto split: list.splits if_splits)
next
  case (Star k)
  then show ?case by (auto dest: greedy_caps)
next
  case (Plus k)
  then show ?case by (auto dest: greedy_caps)
next
  case (Rep n k)
  then show ?case by (auto split: if_splits)
next
  case (Opt r)
  then show ?case by auto
next
  case (Seq a b)
  from Seq.prems obtain st where
    st: "st \<in> set (rmatch ic a (pre, post, caps))" and
    m: "(pre', post', caps') \<in> set (rmatch ic b st)" by auto
  obtain p1 q1 c1 where s: "st = (p1, q1, c1)" by (cases st)
  from Seq.IH(1) st s have "length c1 = length caps" by blast
  moreover from Seq.IH(2) m s have "length caps' = length c1" by blast
  ultimately show ?case by simp
next
  case (Alt a b)
  then show ?case by auto
next
  case (Grp i r)
  from Grp.prems obtain p1 q1 c1 where
    st: "(p1, q1, c1) \<in> set (rmatch ic r (pre, post, caps))" and
    e: "caps' = c1[i := Some (rev (take (length p1 - length pre) p1))]" by auto
  from Grp.IH st have "length c1 = length caps" by blast
  with e show ?case by simp
next
  case Bnd
  then show ?case by (auto split: if_splits)
qed

lemma match_at_groups: "match_at ic r pre post = Some m \<Longrightarrow> length (groups m) = ngroups r"
proof -
  assume a: "match_at ic r pre post = Some m"
  then obtain pre' post' caps' rest where
    r: "rmatch ic r (pre, post, replicate (ngroups r) None) = (pre', post', caps') # rest"
    and g: "groups m = caps'"
    by (auto simp: match_at_def split: list.splits)
  from r have "(pre', post', caps') \<in> set (rmatch ic r (pre, post, replicate (ngroups r) None))"
    by simp
  then have "length caps' = length (replicate (ngroups r) (None :: string option))"
    by (rule rmatch_caps_length)
  with g show ?thesis by simp
qed

lemma scan_groups: "m \<in> set (scan ic r skip pre post) \<Longrightarrow> length (groups m) = ngroups r"
proof (induction post arbitrary: skip pre)
  case Nil
  have "match_at ic r pre [] = Some m"
  proof (cases "skip = 0")
    case True
    with Nil show ?thesis by (cases "match_at ic r pre []") simp_all
  next
    case False
    with Nil show ?thesis by simp
  qed
  then show ?case by (rule match_at_groups)
next
  case (Cons c cs)
  show ?case
  proof (cases "skip > 0")
    case True
    with Cons.prems have "m \<in> set (scan ic r (skip - 1) (c # pre) cs)" by simp
    then show ?thesis by (rule Cons.IH)
  next
    case False
    show ?thesis
    proof (cases "match_at ic r pre (c # cs)")
      case None
      with False Cons.prems have "m \<in> set (scan ic r 0 (c # pre) cs)" by simp
      then show ?thesis by (rule Cons.IH)
    next
      case (Some m0)
      with False Cons.prems have
        "m = m0 \<or> m \<in> set (scan ic r (length (text_of m0) - 1) (c # pre) cs)" by simp
      then show ?thesis
      proof
        assume "m = m0"
        with Some show ?thesis by (simp add: match_at_groups)
      next
        assume "m \<in> set (scan ic r (length (text_of m0) - 1) (c # pre) cs)"
        then show ?thesis by (rule Cons.IH)
      qed
    qed
  qed
qed

lemma finditer_groups: "m \<in> set (finditer ic r content) \<Longrightarrow> length (groups m) = ngroups r"
  by (auto simp: finditer_def dest: scan_groups)

lemma ngroups_seqs: "ngroups (seqs rs) = sum_list (map ngroups rs)"
  by (induction rs) (simp_all add: seqs_def)

lemma ngroups_lit: "ngroups (lit s) = 0"
  by (induction s) (simp_all add: lit_def seqs_def)

lemma ngroups_ALPHA: "ngroups ALPHA = 2"
  by (simp add: ALPHA_def ngroups_seqs ngroups_lit)

lemma ngroups_RGBA: "ngroups RGBA_COLOR_REGEX = 5"
  by (simp add: RGBA_COLOR_REGEX_def ngroups_seqs ngroups_lit ngroups_ALPHA)

lemma ngroups_HSLA: "ngroups HSLA_COLOR_REGEX = 5"
  by (simp add: HSLA_COLOR_REGEX_def ngroups_seqs ngroups_lit ngroups_ALPHA)

lemma length5: "length xs = 5 \<Longrightarrow> \<exists>a b c d e. xs = [a, b, c, d, e]"
  by (auto simp: numeral_eq_Suc length_Suc_conv)

lemma rgba_body_five: "length (groups m) = 5 \<Longrightarrow> rgba_body m cm = Inl ValueError"
  by (auto simp: rgba_body_def dest!: length5)

lemma hsla_body_five: "length (groups m) = 5 \<Longrightarrow> hsla_body m cm = Inl ValueError"
  by (auto simp: hsla_body_def dest!: length5)

lemma for_matches_rgba:
  assumes "ms \<noteq> []" "\<forall>m\<in>set ms. length (groups m) = 5"
  shows "for_matches rgba_body ms cm = Inl ValueError"
  using assms by (cases ms) (simp_all add: rgba_body_five)

lemma for_matches_hsla:
  assumes "ms \<noteq> []" "\<forall>m\<in>set ms. length (groups m) = 5"
  shows "for_matches hsla_body ms cm = Inl ValueError"
  using assms by (cases ms) (simp_all add: hsla_body_five)

lemma rgba_loop_raises:
  "finditer False RGBA_COLOR_REGEX content \<noteq> [] \<Longrightarrow>
     for_matches rgba_body (finditer False RGBA_COLOR_REGEX content) cm = Inl ValueError"
  by (rule for_matches_rgba) (auto dest: finditer_groups simp: ngroups_RGBA)

lemma hsla_loop_raises:
  "finditer False HSLA_COLOR_REGEX content \<noteq> [] \<Longrightarrow>
     for_matches hsla_body (finditer False HSLA_COLOR_REGEX content) cm = Inl ValueError"
  by (rule for_matches_hsla) (auto dest: finditer_groups simp: ngroups_HSLA)

lemma alpha_literal_raises_aux:
  assumes "finditer False RGBA_COLOR_REGEX content \<noteq> []
           \<or> finditer False HSLA_COLOR_REGEX content \<noteq> []"
  shows "\<exists>e. extract_colors_from_content content = Inl e"
  using assms
  by (auto simp: extract_colors_from_content_def rgba_loop_raises hsla_loop_raises
      split: sum.splits)

lemma ex_wide:
  "extract_colors_from_content ''rgb(999999,0,0)''
     = Inr [(Some ''#f423f0000'', [''rgb(999999,0,0)''])]"
  by code_simp

lemma cat_wide: "determine_color_category ''#f423f0000'' = Inr ''purple''"
  by code_simp

lemma run_wide: "process_loop fs_wide [''a.css''] [] =
  (Inr [(Some ''#f423f0000'', \<lparr>name = Some ''#f423f0000'', count = 1,
          variations = [''rgb(999999,0,0)''], unique = True, color_format = ''rgb'',
          category = ''purple'', locations = [''a.css'']\<rparr>)], [])"
  by (simp add: fs_wide_def analyze_file_def ex_wide process_item_def category_of_key_def cat_wide
      format_of_color_def)

text \<open>
  Claim C1. The claim is that every key, and the name of every record, is a canonical
  colour of seven characters, also for components out of range. The code formats each
  component with \<^verbatim>\<open>{:02x}\<close> and checks no range: the text \<^verbatim>\<open>rgb(999999,0,0)\<close> gives
  the key and the record name \<^verbatim>\<open>#f423f0000\<close>, ten characters long, and the category is
  read from its first six digits.
\<close>

theorem out_of_range_rgb_key:
  "extract_colors_from_content ''rgb(999999,0,0)''
     = Inr [(Some ''#f423f0000'', [''rgb(999999,0,0)''])]
   \<and> process_files fs_wide [''a.css''] =
       (Inr [(''purple'', [\<lparr>name = Some ''#f423f0000'', count = 1,
          variations = [''rgb(999999,0,0)''], unique = True, color_format = ''rgb'',
          category = ''purple'', locations = [''a.css'']\<rparr>])], [])
   \<and> \<not> canonical ''#f423f0000'' \<and> length ''#f423f0000'' = 10"
proof -
  have "process_files fs_wide [''a.css''] =
       (Inr [(''purple'', [\<lparr>name = Some ''#f423f0000'', count = 1,
          variations = [''rgb(999999,0,0)''], unique = True, color_format = ''rgb'',
          category = ''purple'', locations = [''a.css'']\<rparr>])], [])"
    unfolding process_files_def run_wide by (simp add: organize_def organize_step_def)
  moreover have "\<not> canonical ''#f423f0000''" by (simp add: canonical_def)
  ultimately show ?thesis using ex_wide by simp
qed

lemma ex_neg:
  "extract_colors_from_content ''hsl(0, 200%, 25%)''
     = Inr [(Some ''#bf-3f-3f'', [''hsl(0, 200%, 25%)''])]"
  by code_simp

lemma cat_neg: "determine_color_category ''#bf-3f-3f'' = Inl ValueError"
  by code_simp

text \<open>
  A percentage above 100 can make a channel negative: the key then holds a minus
  sign, \<^verbatim>\<open>hex_to_rgb\<close> cannot read it, and the exception, raised outside
  \<^verbatim>\<open>analyze_file\<close>, ends the run.
\<close>

lemma out_of_range_hsl_ends_run: "process_files fs_neg [''a.css''] = (Inl ValueError, [])"
  by (simp add: process_files_def fs_neg_def analyze_file_def ex_neg process_item_def
      category_of_key_def cat_neg)

lemma rgba_found: "finditer False RGBA_COLOR_REGEX ''#fff rgba(1,2,3,0)'' \<noteq> []"
  by code_simp

lemma ex_alpha0: "extract_colors_from_content ''#fff rgba(1,2,3,0)'' = Inl ValueError"
  by code_simp

lemma ex_alpha1: "extract_colors_from_content ''#fff rgba(1,2,3,1)'' = Inl ValueError"
  by code_simp

text \<open>
  Claim C7. The claim is that two \<^verbatim>\<open>rgba\<close> (or \<^verbatim>\<open>hsla\<close>) literals that differ in alpha
  get the same key. Both patterns have five groups (the alpha group holds the group
  \<^verbatim>\<open>(\.0)\<close>), and the loop unpacks \<^verbatim>\<open>match.groups()\<close> into four names: on the first
  match of either pattern the extraction raises, and \<^const>\<open>analyze_file\<close> reports the
  file with no colour at all.
\<close>

theorem alpha_literal_raises:
  assumes "finditer False RGBA_COLOR_REGEX content \<noteq> []
           \<or> finditer False HSLA_COLOR_REGEX content \<noteq> []"
    and "fs p = Content content"
  shows "\<exists>e. extract_colors_from_content content = Inl e
           \<and> analyze_file fs p = ([], [(p, Raised e)])"
proof -
  from alpha_literal_raises_aux [OF assms(1)] obtain e where
    "extract_colors_from_content content = Inl e" by blast
  with assms(2) show ?thesis by (simp add: analyze_file_def)
qed

theorem alpha_literal_raises_witness:
  "finditer False RGBA_COLOR_REGEX ''#fff rgba(1,2,3,0)'' \<noteq> []
   \<and> fs_alpha ''a.css'' = Content ''#fff rgba(1,2,3,0)''
   \<and> extract_colors_from_content ''#fff rgba(1,2,3,0)'' = Inl ValueError
   \<and> extract_colors_from_content ''#fff rgba(1,2,3,1)'' = Inl ValueError
   \<and> analyze_file fs_alpha ''a.css'' = ([], [(''a.css'', Raised ValueError)])"
proof -
  have c: "fs_alpha ''a.css'' = Content ''#fff rgba(1,2,3,0)''" by (simp add: fs_alpha_def)
  from alpha_literal_raises [of "''#fff rgba(1,2,3,0)''" fs_alpha "''a.css''"] rgba_found c
  obtain e where "extract_colors_from_content ''#fff rgba(1,2,3,0)'' = Inl e"
    "analyze_file fs_alpha ''a.css'' = ([], [(''a.css'', Raised e)])" by blast
  with ex_alpha0 have "analyze_file fs_alpha ''a.css'' = ([], [(''a.css'', Raised ValueError)])"
    by simp
  with rgba_found c ex_alpha0 ex_alpha1 show ?thesis by simp
qed

section \<open>Properties of the HSL conversion\<close>


































end
